theory Spec2Isabelle
  imports Complex_Main "HOL-Library.AList"
begin

section \<open>Voxel reconstruction engine of \<open>main.py\<close>\<close>

text \<open>
  The engine of \<open>main.py\<close> works on NumPy arrays of floating point numbers. Finite
  floating point values are rational numbers, so a coordinate is modelled as a \<open>real\<close>;
  rounding of the floating point operations themselves is outside the model. Every
  Python exception that the modelled code can raise is a value of \<open>py_error\<close>, and a
  function that can raise returns \<open>py_error + 'a\<close> with \<open>Inl\<close> for the exception.
\<close>

subsection \<open>Data model\<close>

text \<open>
  \<open>IndexError\<close> is raised by indexing out of range; \<open>HelperError\<close> stands for any
  exception of a function of \<open>helper_functions\<close>.
\<close>

datatype py_error = IndexError | HelperError

type_synonym point2 = "real \<times> real"
type_synonym point3 = "real \<times> real \<times> real"
type_synonym colour = "nat \<times> nat \<times> nat"

text \<open>
  A two-dimensional NumPy array: \<open>shape0\<close> rows, \<open>shape1\<close> columns, and the element
  stored at row \<open>y\<close>, column \<open>x\<close>. Only elements inside the shape are ever read.
\<close>

record 'a ndarray2 =
  shape0 :: nat
  shape1 :: nat
  elems :: "nat \<Rightarrow> nat \<Rightarrow> 'a"

type_synonym mask = "nat ndarray2"
type_synonym image = "colour ndarray2"

text \<open>The look-up table is a \<open>dict\<close>; its items are visited in insertion order.\<close>

type_synonym lut = "(int \<times> point2 list) list"

record visible_point =
  ix :: int
  iy :: int
  iz :: int
  rgb :: colour

subsection \<open>Python and NumPy primitives\<close>

text \<open>\<open>int(f)\<close> on a float drops the fractional part.\<close>

definition py_int :: "real \<Rightarrow> int" where
  "py_int r = (if r < 0 then \<lceil>r\<rceil> else \<lfloor>r\<rfloor>)"

text \<open>
  Indexing an axis of length \<open>n\<close> with \<open>i\<close>: a negative index counts from the end,
  anything outside \<open>-n \<le> i < n\<close> raises \<open>IndexError\<close>.
\<close>

definition axis_index :: "nat \<Rightarrow> int \<Rightarrow> py_error + nat" where
  "axis_index n i =
     (if 0 \<le> i \<and> i < int n then Inr (nat i)
      else if i < 0 \<and> - int n \<le> i then Inr (nat (int n + i))
      else Inl IndexError)"

definition getitem :: "'a list \<Rightarrow> int \<Rightarrow> py_error + 'a" where
  "getitem xs i = (case axis_index (length xs) i of Inl e \<Rightarrow> Inl e | Inr j \<Rightarrow> Inr (xs ! j))"

definition getitem2 :: "'a ndarray2 \<Rightarrow> int \<Rightarrow> int \<Rightarrow> py_error + 'a" where
  "getitem2 a y x =
     (case axis_index (shape0 a) y of Inl e \<Rightarrow> Inl e
      | Inr r \<Rightarrow> (case axis_index (shape1 a) x of Inl e \<Rightarrow> Inl e
                 | Inr c \<Rightarrow> Inr (elems a r c)))"

text \<open>
  \<open>np.mean(colors, axis=0).astype(int)\<close>: the channels are 8-bit values and at most
  a handful of them are added, so the sum is exact in double precision and the
  truncated quotient is the integer quotient of the sum by the number of colours.
\<close>

definition channel_mean :: "nat list \<Rightarrow> nat" where
  "channel_mean vs = sum_list vs div length vs"

definition mean_colour :: "colour list \<Rightarrow> colour" where
  "mean_colour colors =
     (channel_mean (map fst colors),
      channel_mean (map (\<lambda>c. fst (snd c)) colors),
      channel_mean (map (\<lambda>c. snd (snd c)) colors))"

subsection \<open>\<open>check_voxel_visibility\<close>\<close>

text \<open>
  The test \<open>0 <= x < m.shape[1] and 0 <= y < m.shape[0]\<close> with
  \<open>m = silhouette_masks[adjusted_cam_id]\<close>. Python evaluates it from the left and
  stops at the first false comparison, so the list of masks is indexed only once
  \<open>0 <= x\<close> holds.
\<close>

definition inside_mask :: "mask list \<Rightarrow> int \<Rightarrow> int \<Rightarrow> int \<Rightarrow> py_error + bool" where
  "inside_mask silhouette_masks adjusted_cam_id x y =
     (if 0 \<le> x then
        (case getitem silhouette_masks adjusted_cam_id of
           Inl e \<Rightarrow> Inl e
         | Inr m \<Rightarrow> Inr (x < int (shape1 m) \<and> 0 \<le> y \<and> y < int (shape0 m)))
      else Inr False)"

text \<open>
  The loop over \<open>lut.items()\<close>, with the list \<open>colors\<close> as accumulator. \<open>Inr None\<close> is
  the early \<open>return None\<close>; \<open>Inr (Some colors)\<close> is the loop running to its end.
\<close>

fun visit_cameras ::
  "lut \<Rightarrow> nat \<Rightarrow> mask list \<Rightarrow> image list \<Rightarrow> colour list \<Rightarrow> py_error + colour list option"
where
  "visit_cameras [] voxel_index silhouette_masks color_images colors = Inr (Some colors)"
| "visit_cameras ((cam_id, points_2d) # rest) voxel_index silhouette_masks color_images colors =
     (let adjusted_cam_id = cam_id - 1 in
      case getitem points_2d (int voxel_index) of
        Inl e \<Rightarrow> Inl e
      | Inr point \<Rightarrow>
          (let x = py_int (fst point); y = py_int (snd point) in
           case inside_mask silhouette_masks adjusted_cam_id x y of
             Inl e \<Rightarrow> Inl e
           | Inr False \<Rightarrow>
               visit_cameras rest voxel_index silhouette_masks color_images colors
           | Inr True \<Rightarrow>
               (case getitem silhouette_masks adjusted_cam_id of
                  Inl e \<Rightarrow> Inl e
                | Inr m \<Rightarrow>
                    (case getitem2 m y x of
                       Inl e \<Rightarrow> Inl e
                     | Inr v \<Rightarrow>
                         if v = 255 then
                           (case getitem color_images adjusted_cam_id of
                              Inl e \<Rightarrow> Inl e
                            | Inr img \<Rightarrow>
                                (case getitem2 img y x of
                                   Inl e \<Rightarrow> Inl e
                                 | Inr color \<Rightarrow>
                                     visit_cameras rest voxel_index silhouette_masks
                                       color_images (colors @ [color])))
                         else Inr None))))"

definition check_voxel_visibility ::
  "nat \<Rightarrow> lut \<Rightarrow> mask list \<Rightarrow> image list \<Rightarrow> py_error + colour option"
where
  "check_voxel_visibility voxel_index lut silhouette_masks color_images =
     (case visit_cameras lut voxel_index silhouette_masks color_images [] of
        Inl e \<Rightarrow> Inl e
      | Inr None \<Rightarrow> Inr None
      | Inr (Some colors) \<Rightarrow>
          if colors \<noteq> [] then Inr (Some (mean_colour colors)) else Inr None)"

subsection \<open>The voxel grid\<close>

text \<open>
  \<open>np.linspace(start, stop, num)\<close>: \<open>num\<close> samples \<open>start + i * step\<close> with
  \<open>step = (stop - start) / (num - 1)\<close>, the last one being \<open>stop\<close>.
\<close>

definition linspace :: "real \<Rightarrow> real \<Rightarrow> nat \<Rightarrow> real list" where
  "linspace start stop num =
     map (\<lambda>i. start + real i * ((stop - start) / real (num - 1))) [0..<num]"

definition x_range :: "real list" where
  "x_range = linspace (- 1024) 1024 200"

definition y_range :: "real list" where
  "y_range = linspace (- 1024) 1024 200"

definition z_range :: "real list" where
  "z_range = linspace 0 2048 200"

text \<open>
  \<open>np.array(np.meshgrid(xs, ys, zs))\<close> with the default \<open>indexing='xy'\<close> is an array
  \<open>A\<close> of shape \<open>(3, |ys|, |xs|, |zs|)\<close> with \<open>A[0, i, j, k] = xs[j]\<close>,
  \<open>A[1, i, j, k] = ys[i]\<close> and \<open>A[2, i, j, k] = zs[k]\<close>.
\<close>

definition meshgrid :: "real list \<Rightarrow> real list \<Rightarrow> real list \<Rightarrow> nat \<Rightarrow> nat \<Rightarrow> nat \<Rightarrow> nat \<Rightarrow> real" where
  "meshgrid xs ys zs c i j k = (if c = 0 then xs ! j else if c = 1 then ys ! i else zs ! k)"

text \<open>
  \<open>A.T\<close> reverses the axes: shape \<open>(|zs|, |xs|, |ys|, 3)\<close> and
  \<open>A.T[k, j, i, c] = A[c, i, j, k]\<close>. \<open>reshape(-1, 3)\<close> reads it in row-major order,
  so row \<open>n = (k * |xs| + j) * |ys| + i\<close> of the result is \<open>A.T[k, j, i, :]\<close>.
\<close>

definition voxel_row :: "real list \<Rightarrow> real list \<Rightarrow> real list \<Rightarrow> nat \<Rightarrow> point3" where
  "voxel_row xs ys zs n =
     (let i = n mod length ys;
          j = (n div length ys) mod length xs;
          k = n div (length ys * length xs)
      in (meshgrid xs ys zs 0 i j k, meshgrid xs ys zs 1 i j k, meshgrid xs ys zs 2 i j k))"

definition make_voxels :: "real list \<Rightarrow> real list \<Rightarrow> real list \<Rightarrow> point3 list" where
  "make_voxels xs ys zs = map (voxel_row xs ys zs) [0..<length zs * length xs * length ys]"

definition voxels :: "point3 list" where
  "voxels = make_voxels x_range y_range z_range"

subsection \<open>\<open>create_lut_parallel\<close>\<close>

text \<open>
  Modelled from the spec: \<open>project_to_2d\<close> of \<open>helper_functions\<close>, which is not part of
  the sources. The spec gives it as \<open>build(cameraModel, voxelGrid)\<close>, an ordered
  sequence of 2D points of the length of the grid whose position \<open>i\<close> is the projection
  of voxel \<open>i\<close>. The projection of one point by one camera is the parameter \<open>proj\<close>.
\<close>

definition project_to_2d :: "('cam \<Rightarrow> point3 \<Rightarrow> point2) \<Rightarrow> point3 list \<Rightarrow> 'cam \<Rightarrow> point2 list" where
  "project_to_2d proj vs cam = map (proj cam) vs"

text \<open>
  The worker \<open>process_camera\<close>. \<open>parse_camera_config_from_file\<close> is not part of the
  sources either; it is the parameter \<open>parse\<close>, from a camera id to the camera's
  parameters or the exception it raises.
\<close>

definition process_camera ::
  "(int \<Rightarrow> py_error + 'cam) \<Rightarrow> ('cam \<Rightarrow> point3 \<Rightarrow> point2) \<Rightarrow> point3 list \<Rightarrow> int
     \<Rightarrow> py_error + (int \<times> point2 list)"
where
  "process_camera parse proj vs cam_id =
     (case parse cam_id of
        Inl e \<Rightarrow> Inl e
      | Inr cam \<Rightarrow> Inr (cam_id, project_to_2d proj vs cam))"

text \<open>
  The thread pool. The workers finish tasks in some order \<open>sched\<close> that the program
  does not control; each finished task stores its outcome in its own future.
  \<open>future.result()\<close> gives the stored outcome, and waits for the task when it has
  not finished yet. A task reads the grid and its own configuration file only.
\<close>

definition run_workers :: "int list \<Rightarrow> (int \<Rightarrow> 'r) \<Rightarrow> (int \<rightharpoonup> 'r)" where
  "run_workers sched task = fold (\<lambda>c finished. finished(c \<mapsto> task c)) sched Map.empty"

definition future_result :: "(int \<rightharpoonup> 'r) \<Rightarrow> (int \<Rightarrow> 'r) \<Rightarrow> int \<Rightarrow> 'r" where
  "future_result finished task c = (case finished c of Some r \<Rightarrow> r | None \<Rightarrow> task c)"

text \<open>
  The loop \<open>for future in futures\<close>: an exception of a task is raised again by
  \<open>future.result()\<close>; otherwise the entry is stored under its key, at the end of the
  dictionary when the key is new.
\<close>

fun collect_futures :: "(py_error + (int \<times> point2 list)) list \<Rightarrow> lut \<Rightarrow> py_error + lut" where
  "collect_futures [] lut = Inr lut"
| "collect_futures (r # rs) lut =
     (case r of
        Inl e \<Rightarrow> Inl e
      | Inr (cam_id, points_2d) \<Rightarrow> collect_futures rs (AList.update cam_id points_2d lut))"

definition create_lut_parallel ::
  "int list \<Rightarrow> (int \<Rightarrow> py_error + 'cam) \<Rightarrow> ('cam \<Rightarrow> point3 \<Rightarrow> point2) \<Rightarrow> point3 list
     \<Rightarrow> py_error + lut"
where
  "create_lut_parallel sched parse proj vs =
     (let task = process_camera parse proj vs;
          finished = run_workers sched task
      in collect_futures (map (future_result finished task) [1, 2, 3, 4]) [])"

subsection \<open>\<open>check_visibility_and_reconstruct\<close>\<close>

text \<open>The row \<open>[ix, iy, iz, *colour]\<close> appended for a visible voxel.\<close>

definition mk_visible_point :: "point3 \<Rightarrow> colour \<Rightarrow> visible_point" where
  "mk_visible_point voxel colour =
     (case voxel of (x, y, z) \<Rightarrow>
        \<lparr>ix = py_int (x / 16), iy = py_int (y / 16), iz = py_int (z / 16), rgb = colour\<rparr>)"

text \<open>
  The loop \<open>for voxel_index in range(len(voxels))\<close>, with \<open>visible_points\<close> as
  accumulator. An exception leaves the loop, and the function, at once.
\<close>

fun resolve_voxels ::
  "nat list \<Rightarrow> point3 list \<Rightarrow> lut \<Rightarrow> mask list \<Rightarrow> image list \<Rightarrow> visible_point list
     \<Rightarrow> py_error + visible_point list"
where
  "resolve_voxels [] vs lookup_table silhouette_masks coloured_images visible_points =
     Inr visible_points"
| "resolve_voxels (voxel_index # later) vs lookup_table silhouette_masks coloured_images
       visible_points =
     (case getitem vs (int voxel_index) of
        Inl e \<Rightarrow> Inl e
      | Inr voxel \<Rightarrow>
          (case check_voxel_visibility voxel_index lookup_table silhouette_masks
                  coloured_images of
             Inl e \<Rightarrow> Inl e
           | Inr None \<Rightarrow>
               resolve_voxels later vs lookup_table silhouette_masks coloured_images
                 visible_points
           | Inr (Some colour) \<Rightarrow>
               resolve_voxels later vs lookup_table silhouette_masks coloured_images
                 (visible_points @ [mk_visible_point voxel colour])))"

text \<open>
  Lines 200 to 211 for a given grid and look-up table: the list \<open>visible_points\<close> at the
  end of the loop.
\<close>

definition reconstruct ::
  "point3 list \<Rightarrow> lut \<Rightarrow> mask list \<Rightarrow> image list \<Rightarrow> py_error + visible_point list"
where
  "reconstruct vs lookup_table silhouette_masks coloured_images =
     resolve_voxels [0..<length vs] vs lookup_table silhouette_masks coloured_images []"

text \<open>
  The whole function. The file \<open>parameters/voxels.txt\<close> is opened after the loop and
  receives one line per element of \<open>visible_points\<close>, in order: \<open>Inr ps\<close> is the file
  written with the records \<open>ps\<close>, and \<open>Inl e\<close> is the exception \<open>e\<close> raised before the
  file is opened.
\<close>

definition check_visibility_and_reconstruct ::
  "int list \<Rightarrow> (int \<Rightarrow> py_error + 'cam) \<Rightarrow> ('cam \<Rightarrow> point3 \<Rightarrow> point2) \<Rightarrow> mask list \<Rightarrow> image list
     \<Rightarrow> py_error + visible_point list"
where
  "check_visibility_and_reconstruct sched parse proj silhouette_masks coloured_images =
     (case create_lut_parallel sched parse proj voxels of
        Inl e \<Rightarrow> Inl e
      | Inr lookup_table \<Rightarrow> reconstruct voxels lookup_table silhouette_masks coloured_images)"


subsection \<open>Notions used in the statements\<close>

text \<open>
  For an item \<open>(cam_id, points_2d)\<close> of the look-up table and a voxel index \<open>i\<close>: the
  pixel that the camera assigns to the voxel, the camera's mask and image, whether the
  pixel lies inside the mask, whether the mask is foreground there, and the colour of
  the image there.
\<close>

definition cam_pixel :: "nat \<Rightarrow> int \<times> point2 list \<Rightarrow> int \<times> int" where
  "cam_pixel i entry = (py_int (fst (snd entry ! i)), py_int (snd (snd entry ! i)))"

definition cam_mask :: "mask list \<Rightarrow> int \<times> point2 list \<Rightarrow> mask" where
  "cam_mask masks entry = masks ! nat (fst entry - 1)"

definition cam_image :: "image list \<Rightarrow> int \<times> point2 list \<Rightarrow> image" where
  "cam_image imgs entry = imgs ! nat (fst entry - 1)"

definition cam_inside :: "mask list \<Rightarrow> nat \<Rightarrow> int \<times> point2 list \<Rightarrow> bool" where
  "cam_inside masks i entry =
     (case cam_pixel i entry of (x, y) \<Rightarrow>
        0 \<le> x \<and> x < int (shape1 (cam_mask masks entry)) \<and>
        0 \<le> y \<and> y < int (shape0 (cam_mask masks entry)))"

definition cam_foreground :: "mask list \<Rightarrow> nat \<Rightarrow> int \<times> point2 list \<Rightarrow> bool" where
  "cam_foreground masks i entry =
     (case cam_pixel i entry of (x, y) \<Rightarrow> elems (cam_mask masks entry) (nat y) (nat x) = 255)"

definition cam_colour :: "image list \<Rightarrow> nat \<Rightarrow> int \<times> point2 list \<Rightarrow> colour" where
  "cam_colour imgs i entry =
     (case cam_pixel i entry of (x, y) \<Rightarrow> elems (cam_image imgs entry) (nat y) (nat x))"

definition cam_in_image :: "image list \<Rightarrow> nat \<Rightarrow> int \<times> point2 list \<Rightarrow> bool" where
  "cam_in_image imgs i entry =
     (case cam_pixel i entry of (x, y) \<Rightarrow>
        x < int (shape1 (cam_image imgs entry)) \<and> y < int (shape0 (cam_image imgs entry)))"

text \<open>
  The shape of the inputs that the engine is run on: every key of the table is the id
  of a camera that has a mask and an image, and every camera's table has an entry for
  voxel \<open>i\<close>.
\<close>

definition lut_ok :: "nat \<Rightarrow> lut \<Rightarrow> mask list \<Rightarrow> image list \<Rightarrow> bool" where
  "lut_ok i lut masks imgs =
     list_all (\<lambda>entry. 1 \<le> fst entry \<and> fst entry \<le> int (length masks) \<and>
                       fst entry \<le> int (length imgs) \<and> i < length (snd entry)) lut"

text \<open>Every camera's image has the pixel dimensions of its mask.\<close>

definition same_shapes :: "mask list \<Rightarrow> image list \<Rightarrow> bool" where
  "same_shapes masks imgs =
     (length masks = length imgs \<and>
      list_all (\<lambda>(m, img). shape0 img = shape0 m \<and> shape1 img = shape1 m) (zip masks imgs))"

text \<open>No pixel of the mask is foreground.\<close>

definition all_background :: "mask \<Rightarrow> bool" where
  "all_background m = (\<forall>r < shape0 m. \<forall>c < shape1 m. elems m r c \<noteq> 255)"

text \<open>Truncation toward zero, as the spec words it: the sign, and the floor of the magnitude.\<close>

definition toward_zero :: "real \<Rightarrow> int" where
  "toward_zero r = (if 0 \<le> r then \<lfloor>\<bar>r\<bar>\<rfloor> else - \<lfloor>\<bar>r\<bar>\<rfloor>)"

text \<open>The table with every projected point replaced by its truncated coordinates.\<close>

definition truncate_point :: "point2 \<Rightarrow> point2" where
  "truncate_point p = (of_int (toward_zero (fst p)), of_int (toward_zero (snd p)))"

definition truncate_lut :: "lut \<Rightarrow> lut" where
  "truncate_lut lut = map (\<lambda>entry. (fst entry, map truncate_point (snd entry))) lut"

text \<open>
  The row expected for a visible voxel: its coordinates divided by 16 and truncated
  toward zero, with its colour. \<open>voxel_rows\<close> is the row of voxel \<open>j\<close> when the voxel is
  visible, and nothing otherwise.
\<close>

definition expected_point :: "point3 \<Rightarrow> colour \<Rightarrow> visible_point" where
  "expected_point voxel col =
     \<lparr>ix = toward_zero (fst voxel / 16), iy = toward_zero (fst (snd voxel) / 16),
      iz = toward_zero (snd (snd voxel) / 16), rgb = col\<rparr>"

definition voxel_rows ::
  "point3 list \<Rightarrow> lut \<Rightarrow> mask list \<Rightarrow> image list \<Rightarrow> nat \<Rightarrow> visible_point list"
where
  "voxel_rows vs lut masks imgs j =
     (case check_voxel_visibility j lut masks imgs of
        Inl e \<Rightarrow> []
      | Inr None \<Rightarrow> []
      | Inr (Some col) \<Rightarrow> [expected_point (vs ! j) col])"

text \<open>The configuration of each of the four cameras can be read.\<close>

definition configs_ok :: "(int \<Rightarrow> py_error + 'cam) \<Rightarrow> bool" where
  "configs_ok parse = list_all (\<lambda>c. \<not> isl (parse c)) [1, 2, 3, 4]"

subsection \<open>Example inputs\<close>

text \<open>Masks and images of two rows and two columns with the same value everywhere.\<close>

definition flat_mask :: "nat \<Rightarrow> mask" where
  "flat_mask v = \<lparr>shape0 = 2, shape1 = 2, elems = \<lambda>r c. v\<rparr>"

definition flat_image :: "colour \<Rightarrow> image" where
  "flat_image col = \<lparr>shape0 = 2, shape1 = 2, elems = \<lambda>r c. col\<rparr>"

definition four_images :: "image list" where
  "four_images =
     [flat_image (10, 0, 0), flat_image (20, 0, 0), flat_image (30, 0, 0), flat_image (40, 0, 0)]"

definition foreground_masks :: "mask list" where
  "foreground_masks = [flat_mask 255, flat_mask 255, flat_mask 255, flat_mask 255]"

definition background_masks :: "mask list" where
  "background_masks = [flat_mask 0, flat_mask 0, flat_mask 0, flat_mask 0]"

text \<open>A table for one voxel that every camera sees inside its image.\<close>

definition lut_all_inside :: lut where
  "lut_all_inside = [(1, [(0, 0)]), (2, [(1 / 2, 3 / 2)]), (3, [(1, 1)]), (4, [(19 / 10, 0)])]"

text \<open>A table for one voxel that camera 1 projects to the left of its image.\<close>

definition lut_cam1_outside :: lut where
  "lut_cam1_outside = [(1, [(- 5, 0)]), (2, [(1 / 2, 3 / 2)]), (3, [(1, 1)]), (4, [(19 / 10, 0)])]"

text \<open>Camera 1 sees no foreground at all, the other cameras see nothing else.\<close>

definition cam1_background_masks :: "mask list" where
  "cam1_background_masks = [flat_mask 0, flat_mask 255, flat_mask 255, flat_mask 255]"

text \<open>Two voxels, and a table in which every camera projects both to pixel \<open>(0, 0)\<close>.\<close>

definition two_voxels :: "point3 list" where
  "two_voxels = [(32, - 16, 48), (40, - 20, 50)]"

definition lut_two_voxels :: lut where
  "lut_two_voxels =
     [(1, [(0, 0), (0, 0)]), (2, [(0, 0), (0, 0)]), (3, [(0, 0), (0, 0)]), (4, [(0, 0), (0, 0)])]"



text \<open>Configurations that can all be read, and two projections that ignore the voxel.\<close>

definition parse_ok :: "int \<Rightarrow> py_error + unit" where
  "parse_ok cam_id = Inr ()"


definition proj_corner :: "unit \<Rightarrow> point3 \<Rightarrow> point2" where
  "proj_corner cam voxel = (1, 1)"

text \<open>A projection that depends on the camera and on the voxel.\<close>

definition parse_id :: "int \<Rightarrow> py_error + int" where
  "parse_id cam_id = Inr cam_id"

definition proj_shift :: "int \<Rightarrow> point3 \<Rightarrow> point2" where
  "proj_shift cam voxel = (fst voxel + of_int cam, fst (snd voxel))"

text \<open>A table for one voxel that camera 2 projects to the left of its image.\<close>

definition lut_cam2_outside :: lut where
  "lut_cam2_outside = [(1, [(0, 0)]), (2, [(- 5, 0)]), (3, [(1, 1)]), (4, [(19 / 10, 0)])]"

text \<open>
  A mask whose only foreground pixel is in row 0, column 1, and an image whose pixel in
  row \<open>r\<close>, column \<open>c\<close> has the colour \<open>(r, c, 0)\<close>.
\<close>

definition spot_mask :: mask where
  "spot_mask = \<lparr>shape0 = 2, shape1 = 2, elems = \<lambda>r c. if r = 0 \<and> c = 1 then 255 else 0\<rparr>"

definition coord_image :: image where
  "coord_image = \<lparr>shape0 = 2, shape1 = 2, elems = \<lambda>r c. (r, c, 0)\<rparr>"



section \<open>Properties\<close>

subsection \<open>Auxiliary facts about indexing\<close>

lemma getitem_nat: "i < length xs \<Longrightarrow> getitem xs (int i) = Inr (xs ! i)"
  by (simp add: getitem_def axis_index_def)

lemma getitem_cam:
  "1 \<le> c \<Longrightarrow> c \<le> int (length xs) \<Longrightarrow> getitem xs (c - 1) = Inr (xs ! nat (c - 1))"
  by (simp add: getitem_def axis_index_def)

lemma getitem2_inside:
  "0 \<le> y \<Longrightarrow> y < int (shape0 a) \<Longrightarrow> 0 \<le> x \<Longrightarrow> x < int (shape1 a) \<Longrightarrow>
   getitem2 a y x = Inr (elems a (nat y) (nat x))"
  by (simp add: getitem2_def axis_index_def)

lemma getitem2_outside:
  "0 \<le> y \<Longrightarrow> 0 \<le> x \<Longrightarrow> \<not> (x < int (shape1 a) \<and> y < int (shape0 a)) \<Longrightarrow>
   getitem2 a y x = Inl IndexError"
  by (auto simp add: getitem2_def axis_index_def)

lemma inside_mask_cam:
  "1 \<le> fst entry \<Longrightarrow> fst entry \<le> int (length masks) \<Longrightarrow>
   inside_mask masks (fst entry - 1) (fst (cam_pixel i entry)) (snd (cam_pixel i entry))
     = Inr (cam_inside masks i entry)"
  by (auto simp add: inside_mask_def getitem_cam cam_inside_def cam_mask_def split: prod.splits)

lemma py_int_toward_zero: "py_int r = toward_zero r"
  by (simp add: py_int_def toward_zero_def ceiling_def)

subsection \<open>One camera of the loop\<close>

lemma visit_step:
  assumes a: "1 \<le> c" "c \<le> int (length masks)" "i < length pts"
  shows "visit_cameras ((c, pts) # rest) i masks imgs acc =
     (if \<not> cam_inside masks i (c, pts) then visit_cameras rest i masks imgs acc
      else if \<not> cam_foreground masks i (c, pts) then Inr None
      else (case getitem imgs (c - 1) of Inl e \<Rightarrow> Inl e
            | Inr img \<Rightarrow>
                (case getitem2 img (snd (cam_pixel i (c, pts))) (fst (cam_pixel i (c, pts))) of
                   Inl e \<Rightarrow> Inl e
                 | Inr color \<Rightarrow> visit_cameras rest i masks imgs (acc @ [color]))))"
proof -
  have px: "cam_pixel i (c, pts) = (py_int (fst (pts ! i)), py_int (snd (pts ! i)))"
    by (simp add: cam_pixel_def)
  have im: "inside_mask masks (c - 1) (py_int (fst (pts ! i))) (py_int (snd (pts ! i)))
     = Inr (cam_inside masks i (c, pts))"
    using inside_mask_cam[of "(c, pts)" masks i] a by (simp add: px)
  show ?thesis
  proof (cases "cam_inside masks i (c, pts)")
    case False
    then show ?thesis using a im by (simp add: getitem_nat)
  next
    case True
    then have g2:
      "getitem2 (masks ! nat (c - 1)) (py_int (snd (pts ! i))) (py_int (fst (pts ! i)))
       = Inr (elems (masks ! nat (c - 1)) (nat (py_int (snd (pts ! i))))
                (nat (py_int (fst (pts ! i)))))"
      by (intro getitem2_inside) (simp_all add: cam_inside_def px cam_mask_def)
    show ?thesis using a im True
      by (simp add: getitem_nat getitem_cam g2 cam_foreground_def px cam_mask_def
            cong: sum.case_cong)
  qed
qed

lemma visit_step_image:
  assumes a: "1 \<le> c" "c \<le> int (length masks)" "c \<le> int (length imgs)" "i < length pts"
  shows "visit_cameras ((c, pts) # rest) i masks imgs acc =
     (if \<not> cam_inside masks i (c, pts) then visit_cameras rest i masks imgs acc
      else if \<not> cam_foreground masks i (c, pts) then Inr None
      else if \<not> cam_in_image imgs i (c, pts) then Inl IndexError
      else visit_cameras rest i masks imgs (acc @ [cam_colour imgs i (c, pts)]))"
proof (cases "cam_inside masks i (c, pts) \<and> cam_foreground masks i (c, pts)")
  case False
  then show ?thesis using a by (auto simp add: visit_step simp del: visit_cameras.simps(2))
next
  case True
  obtain x y where px: "cam_pixel i (c, pts) = (x, y)" by (cases "cam_pixel i (c, pts)")
  have nonneg: "0 \<le> x" "0 \<le> y" using True px by (simp_all add: cam_inside_def)
  have img: "getitem imgs (c - 1) = Inr (cam_image imgs (c, pts))"
    using a by (simp add: getitem_cam cam_image_def)
  have rd: "getitem2 (cam_image imgs (c, pts)) y x =
      (if cam_in_image imgs i (c, pts) then Inr (cam_colour imgs i (c, pts)) else Inl IndexError)"
    using nonneg px
    by (simp add: getitem2_inside getitem2_outside cam_in_image_def cam_colour_def)
  show ?thesis using a True
    by (simp add: visit_step img px rd del: visit_cameras.simps(2))
qed

subsection \<open>The whole loop\<close>

text \<open>
  The first camera that sees the voxel inside its mask on a background pixel, or on a
  foreground pixel outside its image, ends the loop; when there is none, the colours of
  the cameras that see the voxel inside their masks are collected in order.
\<close>

lemma visit_full:
  assumes "lut_ok i lut masks imgs"
  shows "visit_cameras lut i masks imgs acc =
    (case find (\<lambda>e. cam_inside masks i e \<and>
                     (\<not> cam_foreground masks i e \<or> \<not> cam_in_image imgs i e)) lut of
       None \<Rightarrow> Inr (Some (acc @ map (cam_colour imgs i) (filter (cam_inside masks i) lut)))
     | Some e \<Rightarrow> if \<not> cam_foreground masks i e then Inr None else Inl IndexError)"
  using assms
proof (induction lut arbitrary: acc)
  case Nil
  then show ?case by simp
next
  case (Cons entry lut)
  obtain c pts where e: "entry = (c, pts)" by (cases entry)
  have ok: "lut_ok i lut masks imgs" using Cons.prems by (simp add: lut_ok_def)
  have a: "1 \<le> c" "c \<le> int (length masks)" "c \<le> int (length imgs)" "i < length pts"
    using Cons.prems e by (simp_all add: lut_ok_def)
  show ?case unfolding e
    by (simp add: visit_step_image[OF a] Cons.IH[OF ok] del: visit_cameras.simps(2)
          split: option.splits)
qed

text \<open>The same when no mask has a foreground pixel; the images play no role then.\<close>

lemma visit_background:
  assumes "list_all (\<lambda>entry. 1 \<le> fst entry \<and> fst entry \<le> int (length masks) \<and>
                             i < length (snd entry)) lut"
    and "\<forall>entry \<in> set lut. cam_inside masks i entry \<longrightarrow> \<not> cam_foreground masks i entry"
  shows "visit_cameras lut i masks imgs acc =
           (if \<exists>entry \<in> set lut. cam_inside masks i entry then Inr None else Inr (Some acc))"
  using assms
proof (induction lut arbitrary: acc)
  case Nil
  then show ?case by simp
next
  case (Cons entry lut)
  obtain c pts where e: "entry = (c, pts)" by (cases entry)
  have a: "1 \<le> c" "c \<le> int (length masks)" "i < length pts"
    using Cons.prems e by simp_all
  have ih: "visit_cameras lut i masks imgs acc =
           (if \<exists>entry \<in> set lut. cam_inside masks i entry then Inr None else Inr (Some acc))"
    using Cons.prems by (intro Cons.IH) simp_all
  show ?case using Cons.prems(2) unfolding e
    by (simp add: visit_step[OF a] ih del: visit_cameras.simps(2))
qed

subsection \<open>The result of \<open>check_voxel_visibility\<close>\<close>

lemma check_full:
  assumes "lut_ok i lut masks imgs"
  shows "check_voxel_visibility i lut masks imgs =
    (case find (\<lambda>e. cam_inside masks i e \<and>
                     (\<not> cam_foreground masks i e \<or> \<not> cam_in_image imgs i e)) lut of
       None \<Rightarrow>
         if filter (cam_inside masks i) lut \<noteq> []
         then Inr (Some (mean_colour (map (cam_colour imgs i) (filter (cam_inside masks i) lut))))
         else Inr None
     | Some e \<Rightarrow> if \<not> cam_foreground masks i e then Inr None else Inl IndexError)"
  by (simp add: check_voxel_visibility_def visit_full[OF assms] split: option.splits)

lemma same_shapes_in_image:
  assumes "same_shapes masks imgs" "1 \<le> fst e" "fst e \<le> int (length masks)"
    and "cam_inside masks i e"
  shows "cam_in_image imgs i e"
proof -
  have n: "nat (fst e - 1) < length masks" using assms(2,3) by simp
  have l: "length masks = length imgs" using assms(1) by (simp add: same_shapes_def)
  have "list_all (\<lambda>(m, img). shape0 img = shape0 m \<and> shape1 img = shape1 m) (zip masks imgs)"
    using assms(1) by (simp add: same_shapes_def)
  then have "shape0 (imgs ! nat (fst e - 1)) = shape0 (masks ! nat (fst e - 1)) \<and>
             shape1 (imgs ! nat (fst e - 1)) = shape1 (masks ! nat (fst e - 1))"
    using n l by (simp add: list_all_length)
  then show ?thesis using assms(4)
    by (simp add: cam_inside_def cam_in_image_def cam_mask_def cam_image_def split: prod.splits)
qed

lemma check_same_shapes:
  assumes ok: "lut_ok i lut masks imgs" and sh: "same_shapes masks imgs"
  shows "check_voxel_visibility i lut masks imgs =
    (if \<exists>e \<in> set lut. cam_inside masks i e \<and> \<not> cam_foreground masks i e then Inr None
     else if filter (cam_inside masks i) lut = [] then Inr None
     else Inr (Some (mean_colour (map (cam_colour imgs i) (filter (cam_inside masks i) lut)))))"
proof -
  have "find (\<lambda>e. cam_inside masks i e \<and>
                     (\<not> cam_foreground masks i e \<or> \<not> cam_in_image imgs i e)) lut
      = find (\<lambda>e. cam_inside masks i e \<and> \<not> cam_foreground masks i e) lut"
  proof (rule find_cong[OF refl])
    fix e assume "e \<in> set lut"
    then have "1 \<le> fst e" "fst e \<le> int (length masks)"
      using ok by (auto simp add: lut_ok_def list_all_iff)
    then show "(cam_inside masks i e \<and>
                 (\<not> cam_foreground masks i e \<or> \<not> cam_in_image imgs i e))
        = (cam_inside masks i e \<and> \<not> cam_foreground masks i e)"
      using same_shapes_in_image[OF sh] by blast
  qed
  then show ?thesis
    by (auto simp add: check_full[OF ok] find_None_iff find_Some_iff split: option.splits)
qed

lemma example_shapes:
  "same_shapes foreground_masks four_images" "same_shapes cam1_background_masks four_images"
  "same_shapes background_masks four_images"
  by (simp_all add: same_shapes_def foreground_masks_def cam1_background_masks_def
        background_masks_def four_images_def flat_mask_def flat_image_def)

lemma example_lut_ok:
  "lut_ok 0 lut_cam1_outside foreground_masks four_images"
  "lut_ok 0 lut_all_inside foreground_masks four_images"
  by (simp_all add: lut_ok_def lut_cam1_outside_def lut_all_inside_def foreground_masks_def
        four_images_def)

lemmas example_unfold =
  check_voxel_visibility_def lut_cam1_outside_def lut_all_inside_def foreground_masks_def
  cam1_background_masks_def background_masks_def four_images_def flat_mask_def flat_image_def
  getitem_def getitem2_def axis_index_def inside_mask_def py_int_def mean_colour_def
  channel_mean_def

lemmas example_cam_unfold =
  cam_inside_def cam_foreground_def cam_colour_def cam_pixel_def cam_mask_def cam_image_def
  py_int_def lut_cam1_outside_def lut_all_inside_def foreground_masks_def four_images_def
  flat_mask_def flat_image_def

text \<open>
  C10. A camera whose truncated projection of the voxel lies outside its image is
  skipped. When at least one camera sees the voxel inside its image and every such
  camera sees it on a foreground pixel, the result is, channel by channel, the sum of
  the colours of those cameras only, divided by their number and truncated to an
  integer; they may be fewer than four. The result is \<open>None\<close> exactly when some camera
  sees the voxel inside its image on a pixel that is not foreground, or no camera sees
  it inside its image.
\<close>

theorem out_of_bounds_cameras_are_skipped:
  assumes "lut_ok i lut masks imgs" and "same_shapes masks imgs"
  shows "((\<exists>e \<in> set lut. cam_inside masks i e) \<and>
          (\<forall>e \<in> set lut. cam_inside masks i e \<longrightarrow> cam_foreground masks i e)
          \<longrightarrow> (let cols = map (cam_colour imgs i) (filter (cam_inside masks i) lut)
               in check_voxel_visibility i lut masks imgs =
                    Inr (Some (sum_list (map fst cols) div length cols,
                               sum_list (map (\<lambda>c. fst (snd c)) cols) div length cols,
                               sum_list (map (\<lambda>c. snd (snd c)) cols) div length cols))))
       \<and> (check_voxel_visibility i lut masks imgs = Inr None
            \<longleftrightarrow> (\<exists>e \<in> set lut. cam_inside masks i e \<and> \<not> cam_foreground masks i e)
                \<or> (\<forall>e \<in> set lut. \<not> cam_inside masks i e))"
  by (auto simp add: check_same_shapes[OF assms] filter_empty_conv Let_def mean_colour_def
        channel_mean_def)

theorem out_of_bounds_cameras_are_skipped_witness:
  "lut_ok 0 lut_cam2_outside foreground_masks four_images \<and>
   same_shapes foreground_masks four_images \<and>
   \<not> cam_inside foreground_masks 0 (2, [(- 5, 0)]) \<and>
   map (cam_colour four_images 0) (filter (cam_inside foreground_masks 0) lut_cam2_outside)
     = [(10, 0, 0), (30, 0, 0), (40, 0, 0)] \<and>
   check_voxel_visibility 0 lut_cam2_outside foreground_masks four_images
     = Inr (Some (26, 0, 0))"
proof -
  have ok: "lut_ok 0 lut_cam2_outside foreground_masks four_images"
    by (simp add: lut_ok_def lut_cam2_outside_def foreground_masks_def four_images_def)
  have ins: "\<exists>e \<in> set lut_cam2_outside. cam_inside foreground_masks 0 e"
    by (simp add: example_cam_unfold lut_cam2_outside_def)
  have fg: "\<forall>e \<in> set lut_cam2_outside.
              cam_inside foreground_masks 0 e \<longrightarrow> cam_foreground foreground_masks 0 e"
    by (simp add: example_cam_unfold lut_cam2_outside_def)
  have cols: "map (cam_colour four_images 0)
                (filter (cam_inside foreground_masks 0) lut_cam2_outside)
              = [(10, 0, 0), (30, 0, 0), (40, 0, 0)]"
    by (simp add: example_cam_unfold lut_cam2_outside_def)
  have out: "\<not> cam_inside foreground_masks 0 (2, [(- 5, 0)])"
    by (simp add: example_cam_unfold)
  have "check_voxel_visibility 0 lut_cam2_outside foreground_masks four_images
          = Inr (Some (26, 0, 0))"
    using out_of_bounds_cameras_are_skipped[OF ok example_shapes(1)] ins fg
    by (simp add: cols)
  then show ?thesis using ok example_shapes(1) out cols by (simp only: simp_thms)
qed

text \<open>
  C2. For a voxel that all four cameras see inside their images on foreground pixels,
  the colour returned is the mean of the four cameras' pixel colours, channel by
  channel, truncated to an integer. The colours \<open>(10,0,0)\<close>, \<open>(20,0,0)\<close>, \<open>(30,0,0)\<close>
  and \<open>(40,0,0)\<close> give \<open>(25,0,0)\<close>.
\<close>

theorem colour_is_mean_of_four_cameras:
  assumes ok: "lut_ok i lut masks imgs" and sh: "same_shapes masks imgs"
    and vis: "\<forall>e \<in> set lut. cam_inside masks i e \<and> cam_foreground masks i e"
    and cols: "map (cam_colour imgs i) lut =
                 [(r1, g1, b1), (r2, g2, b2), (r3, g3, b3), (r4, g4, b4)]"
  shows "check_voxel_visibility i lut masks imgs =
           Inr (Some ((r1 + r2 + r3 + r4) div 4, (g1 + g2 + g3 + g4) div 4,
                      (b1 + b2 + b3 + b4) div 4))"
proof -
  have f: "filter (cam_inside masks i) lut = lut" using vis by (simp add: filter_id_conv)
  have ne: "lut \<noteq> []" using cols by auto
  have "check_voxel_visibility i lut masks imgs =
          Inr (Some (mean_colour (map (cam_colour imgs i) lut)))"
    using vis ne by (simp add: check_same_shapes[OF ok sh] f)
  then show ?thesis by (simp add: cols mean_colour_def channel_mean_def add.assoc)
qed

theorem colour_is_mean_of_four_cameras_witness:
  "lut_ok 0 lut_all_inside foreground_masks four_images \<and>
   same_shapes foreground_masks four_images \<and>
   map (cam_colour four_images 0) lut_all_inside
     = [(10, 0, 0), (20, 0, 0), (30, 0, 0), (40, 0, 0)] \<and>
   check_voxel_visibility 0 lut_all_inside foreground_masks four_images
     = Inr (Some (25, 0, 0))"
proof -
  have vis: "\<forall>e \<in> set lut_all_inside.
               cam_inside foreground_masks 0 e \<and> cam_foreground foreground_masks 0 e"
    by (simp add: example_cam_unfold)
  have cols: "map (cam_colour four_images 0) lut_all_inside
                = [(10, 0, 0), (20, 0, 0), (30, 0, 0), (40, 0, 0)]"
    by (simp add: example_cam_unfold)
  show ?thesis
    using colour_is_mean_of_four_cameras[OF example_lut_ok(2) example_shapes(1) vis cols]
      example_lut_ok(2) example_shapes(1) cols
    by simp
qed

text \<open>
  C1. The claim is that a voxel is visible only if every camera sees it inside its
  image on a foreground pixel, so that one camera with an all-background mask leaves no
  voxel visible. The code returns a colour for the voxel below: camera 1 projects it to
  column \<open>-5\<close>, outside its image, its mask is background everywhere, and the other
  three cameras see the voxel on foreground pixels.
\<close>

theorem out_of_bounds_camera_does_not_exclude:
  "\<not> cam_inside cam1_background_masks 0 (1, [(- 5, 0)]) \<and>
   elems (cam1_background_masks ! 0) = (\<lambda>r c. 0) \<and>
   check_voxel_visibility 0 lut_cam1_outside cam1_background_masks four_images
     = Inr (Some (30, 0, 0))"
  by (simp add: example_unfold cam_inside_def cam_pixel_def cam_mask_def)

subsection \<open>Truncation of the projected point\<close>

lemma py_int_of_int: "py_int (of_int z) = z"
  by (simp add: py_int_def)

lemma py_int_truncate_point:
  "py_int (fst (truncate_point p)) = py_int (fst p)"
  "py_int (snd (truncate_point p)) = py_int (snd p)"
  by (simp_all add: truncate_point_def py_int_of_int py_int_toward_zero[symmetric])

lemma getitem_map:
  "getitem (map f xs) j = (case getitem xs j of Inl e \<Rightarrow> Inl e | Inr x \<Rightarrow> Inr (f x))"
  by (auto simp add: getitem_def axis_index_def)

lemma visit_truncate:
  "visit_cameras (truncate_lut lut) i masks imgs acc = visit_cameras lut i masks imgs acc"
proof (induction lut arbitrary: acc)
  case Nil
  then show ?case by (simp add: truncate_lut_def)
next
  case (Cons entry lut)
  obtain c pts where e: "entry = (c, pts)" by (cases entry)
  have t: "truncate_lut ((c, pts) # lut) = (c, map truncate_point pts) # truncate_lut lut"
    by (simp add: truncate_lut_def)
  show ?case
  proof (cases "getitem pts (int i)")
    case (Inl err)
    then show ?thesis unfolding e t by (simp add: getitem_map)
  next
    case (Inr p)
    then have "getitem (map truncate_point pts) (int i) = Inr (truncate_point p)"
      by (simp add: getitem_map)
    then show ?thesis unfolding e t using Inr
      by (simp add: py_int_truncate_point Cons.IH cong: sum.case_cong bool.case_cong if_cong)
  qed
qed

text \<open>
  C3. For every camera and every voxel index, the projected point of the table is
  turned into the pixel \<open>(x, y)\<close> by truncation toward zero, and it is this pixel that the
  bounds check, the mask lookup and the image lookup use. It is not rounding to nearest
  or rounding down: the point \<open>(1.9, -0.5)\<close> is the pixel in column \<open>1\<close> and row \<open>0\<close>.
  Hence the result is the same when every point of the table is replaced by its
  truncated coordinates.
\<close>

theorem pixel_is_truncated_projection:
  assumes "1 \<le> c" "c \<le> int (length masks)" "c \<le> int (length imgs)" "i < length pts"
  shows "visit_cameras ((c, pts) # rest) i masks imgs acc =
     (let x = toward_zero (fst (pts ! i)); y = toward_zero (snd (pts ! i));
          m = masks ! nat (c - 1); img = imgs ! nat (c - 1)
      in if \<not> (0 \<le> x \<and> x < int (shape1 m) \<and> 0 \<le> y \<and> y < int (shape0 m))
         then visit_cameras rest i masks imgs acc
         else if elems m (nat y) (nat x) \<noteq> 255 then Inr None
         else if \<not> (x < int (shape1 img) \<and> y < int (shape0 img)) then Inl IndexError
         else visit_cameras rest i masks imgs (acc @ [elems img (nat y) (nat x)]))
   \<and> check_voxel_visibility i [(c, pts)] masks imgs =
     (let x = toward_zero (fst (pts ! i)); y = toward_zero (snd (pts ! i));
          m = masks ! nat (c - 1); img = imgs ! nat (c - 1)
      in if \<not> (0 \<le> x \<and> x < int (shape1 m) \<and> 0 \<le> y \<and> y < int (shape0 m))
         then Inr None
         else if elems m (nat y) (nat x) \<noteq> 255 then Inr None
         else if \<not> (x < int (shape1 img) \<and> y < int (shape0 img)) then Inl IndexError
         else Inr (Some (elems img (nat y) (nat x))))
   \<and> check_voxel_visibility i (truncate_lut lut) masks imgs
       = check_voxel_visibility i lut masks imgs"
proof -
  have step: "visit_cameras ((c, pts) # rest) i masks imgs acc =
     (let x = toward_zero (fst (pts ! i)); y = toward_zero (snd (pts ! i));
          m = masks ! nat (c - 1); img = imgs ! nat (c - 1)
      in if \<not> (0 \<le> x \<and> x < int (shape1 m) \<and> 0 \<le> y \<and> y < int (shape0 m))
         then visit_cameras rest i masks imgs acc
         else if elems m (nat y) (nat x) \<noteq> 255 then Inr None
         else if \<not> (x < int (shape1 img) \<and> y < int (shape0 img)) then Inl IndexError
         else visit_cameras rest i masks imgs (acc @ [elems img (nat y) (nat x)]))"
    for rest acc
  proof -
    have g: "getitem pts (int i) = Inr (pts ! i)"
      using assms(4) by (rule getitem_nat)
    have gm: "getitem masks (c - 1) = Inr (masks ! nat (c - 1))"
      using assms(1,2) by (rule getitem_cam)
    have gi: "getitem imgs (c - 1) = Inr (imgs ! nat (c - 1))"
      using assms(1,3) by (rule getitem_cam)
    show ?thesis
      by (auto simp add: g gm gi inside_mask_def getitem2_def axis_index_def
            py_int_toward_zero Let_def)
  qed
  have one: "mean_colour [col] = col" for col
    by (simp add: mean_colour_def channel_mean_def)
  have single: "check_voxel_visibility i [(c, pts)] masks imgs =
     (let x = toward_zero (fst (pts ! i)); y = toward_zero (snd (pts ! i));
          m = masks ! nat (c - 1); img = imgs ! nat (c - 1)
      in if \<not> (0 \<le> x \<and> x < int (shape1 m) \<and> 0 \<le> y \<and> y < int (shape0 m))
         then Inr None
         else if elems m (nat y) (nat x) \<noteq> 255 then Inr None
         else if \<not> (x < int (shape1 img) \<and> y < int (shape0 img)) then Inl IndexError
         else Inr (Some (elems img (nat y) (nat x))))"
    unfolding check_voxel_visibility_def step
    by (simp add: Let_def one)
  have inv: "check_voxel_visibility i (truncate_lut lut) masks imgs
               = check_voxel_visibility i lut masks imgs"
    by (simp add: check_voxel_visibility_def visit_truncate)
  show ?thesis using step single inv by (simp only: simp_thms)
qed

theorem pixel_is_truncated_projection_witness:
  "visit_cameras [(1, [(19 / 10, - 1 / 2)])] 0 [spot_mask] [coord_image] []
     = Inr (Some [(0, 1, 0)])
   \<and> check_voxel_visibility 0 [(1, [(19 / 10, - 1 / 2)])] [spot_mask] [coord_image]
     = Inr (Some (0, 1, 0))
   \<and> round (19 / 10 :: real) = 2 \<and> \<lfloor>- 1 / 2 :: real\<rfloor> = - 1"
proof -
  have h: "(1 :: int) \<le> 1" "(1 :: int) \<le> int (length [spot_mask])"
    "(1 :: int) \<le> int (length [coord_image])"
    "(0 :: nat) < length [(19 / 10 :: real, - 1 / 2 :: real)]"
    by simp_all
  note t = pixel_is_truncated_projection[OF h, of "[]" "[]"]
  have a: "visit_cameras [(1, [(19 / 10, - 1 / 2)])] 0 [spot_mask] [coord_image] []
             = Inr (Some [(0, 1, 0)])"
    by (subst conjunct1[OF t])
       (simp add: toward_zero_def spot_mask_def coord_image_def Let_def)
  have b: "check_voxel_visibility 0 [(1, [(19 / 10, - 1 / 2)])] [spot_mask] [coord_image]
             = Inr (Some (0, 1, 0))"
    by (subst conjunct1[OF conjunct2[OF t]])
       (simp add: toward_zero_def spot_mask_def coord_image_def Let_def)
  have c: "round (19 / 10 :: real) = 2" "\<lfloor>- 1 / 2 :: real\<rfloor> = - 1"
    by (simp_all add: round_def)
  show ?thesis using a b c by (simp only: simp_thms)
qed

subsection \<open>The loop over the voxels\<close>

lemma py_int_numerals:
  "py_int (- 1) = - 1" "py_int 0 = 0" "py_int 1 = 1"
  "py_int (numeral n) = numeral n" "py_int (- numeral n) = - numeral n"
  using py_int_of_int[of "- 1"] py_int_of_int[of 0] py_int_of_int[of 1]
    py_int_of_int[of "numeral n"] py_int_of_int[of "- numeral n"]
  by simp_all

lemma mk_visible_point_expected: "mk_visible_point voxel col = expected_point voxel col"
  by (simp add: mk_visible_point_def expected_point_def py_int_toward_zero split: prod.splits)

text \<open>
  The loop stops at the first voxel whose visibility check raises; otherwise it collects
  the rows of the visible voxels in the order of the indices.
\<close>

lemma resolve_full:
  assumes "\<forall>j \<in> set js. j < length vs"
  shows "resolve_voxels js vs lut masks imgs acc =
    (case find (\<lambda>j. isl (check_voxel_visibility j lut masks imgs)) js of
       Some j \<Rightarrow> Inl (projl (check_voxel_visibility j lut masks imgs))
     | None \<Rightarrow> Inr (acc @ concat (map (voxel_rows vs lut masks imgs) js)))"
  using assms
proof (induction js arbitrary: acc)
  case Nil
  then show ?case by simp
next
  case (Cons j js)
  have g: "getitem vs (int j) = Inr (vs ! j)" using Cons.prems by (simp add: getitem_nat)
  have ih: "\<And>acc. resolve_voxels js vs lut masks imgs acc =
    (case find (\<lambda>j. isl (check_voxel_visibility j lut masks imgs)) js of
       Some j \<Rightarrow> Inl (projl (check_voxel_visibility j lut masks imgs))
     | None \<Rightarrow> Inr (acc @ concat (map (voxel_rows vs lut masks imgs) js)))"
    using Cons.prems by (intro Cons.IH) simp
  show ?case
  proof (cases "check_voxel_visibility j lut masks imgs")
    case (Inl e)
    then show ?thesis by (simp add: g)
  next
    case (Inr r)
    show ?thesis
    proof (cases r)
      case None
      have "voxel_rows vs lut masks imgs j = []" using Inr None by (simp add: voxel_rows_def)
      then show ?thesis using Inr None by (simp add: g ih split: option.splits)
    next
      case (Some col)
      have "voxel_rows vs lut masks imgs j = [mk_visible_point (vs ! j) col]"
        using Inr Some by (simp add: voxel_rows_def mk_visible_point_expected)
      then show ?thesis using Inr Some by (simp add: g ih split: option.splits)
    qed
  qed
qed

lemma reconstruct_full:
  "reconstruct vs lut masks imgs =
    (case find (\<lambda>j. isl (check_voxel_visibility j lut masks imgs)) [0..<length vs] of
       Some j \<Rightarrow> Inl (projl (check_voxel_visibility j lut masks imgs))
     | None \<Rightarrow> Inr (concat (map (voxel_rows vs lut masks imgs) [0..<length vs])))"
  by (simp add: reconstruct_def resolve_full cong: option.case_cong)

lemma example_two_voxels:
  "reconstruct two_voxels lut_two_voxels foreground_masks four_images
     = Inr [\<lparr>ix = 2, iy = - 1, iz = 3, rgb = (25, 0, 0)\<rparr>,
            \<lparr>ix = 2, iy = - 1, iz = 3, rgb = (25, 0, 0)\<rparr>]"
  by (simp add: reconstruct_def two_voxels_def lut_two_voxels_def example_unfold
        mk_visible_point_def upt_rec ceiling_def)

text \<open>
  C4. The row written for a visible voxel with coordinates \<open>(x, y, z)\<close> has the indices
  \<open>x/16\<close>, \<open>y/16\<close> and \<open>z/16\<close>, each truncated toward zero; the coordinates
  \<open>(32, -16, 48)\<close> give \<open>(2, -1, 3)\<close>. There is one row for every visible voxel, so equal
  index triples are written as often as they occur.
\<close>

theorem output_indices_are_scaled_coordinates:
  assumes "reconstruct vs lut masks imgs = Inr out"
  shows "out = concat (map (voxel_rows vs lut masks imgs) [0..<length vs])
       \<and> length out
           = length (filter (\<lambda>j. voxel_rows vs lut masks imgs j \<noteq> []) [0..<length vs])
       \<and> mk_visible_point (32, - 16, 48) col = \<lparr>ix = 2, iy = - 1, iz = 3, rgb = col\<rparr>"
proof -
  have o: "out = concat (map (voxel_rows vs lut masks imgs) [0..<length vs])"
    using assms by (simp add: reconstruct_full split: option.splits)
  have len: "length (concat (map (voxel_rows vs lut masks imgs) js))
          = length (filter (\<lambda>j. voxel_rows vs lut masks imgs j \<noteq> []) js)" for js
    by (induction js) (auto simp add: voxel_rows_def split: sum.splits option.splits)
  have ex: "mk_visible_point (32, - 16, 48) col = \<lparr>ix = 2, iy = - 1, iz = 3, rgb = col\<rparr>"
    by (simp add: mk_visible_point_def py_int_numerals)
  show ?thesis using o len ex by simp
qed

theorem output_indices_are_scaled_coordinates_witness:
  "reconstruct two_voxels lut_two_voxels foreground_masks four_images
     = Inr [\<lparr>ix = 2, iy = - 1, iz = 3, rgb = (25, 0, 0)\<rparr>,
            \<lparr>ix = 2, iy = - 1, iz = 3, rgb = (25, 0, 0)\<rparr>]
   \<and> concat (map (voxel_rows two_voxels lut_two_voxels foreground_masks four_images)
               [0..<length two_voxels])
     = [\<lparr>ix = 2, iy = - 1, iz = 3, rgb = (25, 0, 0)\<rparr>,
        \<lparr>ix = 2, iy = - 1, iz = 3, rgb = (25, 0, 0)\<rparr>]
   \<and> length (filter (\<lambda>j. voxel_rows two_voxels lut_two_voxels foreground_masks four_images j
                           \<noteq> []) [0..<length two_voxels]) = 2"
proof -
  let ?rows = "[\<lparr>ix = 2, iy = - 1, iz = 3, rgb = (25, 0, 0)\<rparr>,
                \<lparr>ix = 2, iy = - 1, iz = 3, rgb = (25, 0, 0)\<rparr>]"
  note t = output_indices_are_scaled_coordinates[OF example_two_voxels, where col = "(0, 0, 0)"]
  have a: "?rows = concat (map (voxel_rows two_voxels lut_two_voxels foreground_masks
                                  four_images) [0..<length two_voxels])"
    by (rule conjunct1[OF t])
  have b: "length ?rows = length (filter (\<lambda>j. voxel_rows two_voxels lut_two_voxels
             foreground_masks four_images j \<noteq> []) [0..<length two_voxels])"
    by (rule conjunct1[OF conjunct2[OF t]])
  have c: "length ?rows = 2" by simp
  show ?thesis using example_two_voxels a[symmetric] b[symmetric] c by (simp only: simp_thms)
qed

subsection \<open>The look-up table\<close>

lemma run_workers_lookup:
  "fold (\<lambda>c finished. finished(c \<mapsto> task c)) sched m c =
     (if c \<in> set sched then Some (task c) else m c)"
  by (induction sched arbitrary: m) auto

lemma future_result_run: "future_result (run_workers sched task) task c = task c"
  by (simp add: future_result_def run_workers_def run_workers_lookup)

text \<open>Whatever the order in which the workers finish, the futures are read in the order
  of submission and hold what the tasks compute.\<close>

lemma create_lut_sequential:
  "create_lut_parallel sched parse proj vs =
     collect_futures (map (process_camera parse proj vs) [1, 2, 3, 4]) []"
proof -
  have "map (future_result (run_workers sched (process_camera parse proj vs))
          (process_camera parse proj vs)) [1, 2, 3, 4]
        = map (process_camera parse proj vs) [1, 2, 3, 4]"
    by (simp add: future_result_run)
  then show ?thesis unfolding create_lut_parallel_def Let_def by (rule arg_cong2[OF _ refl])
qed

lemma create_lut_result:
  "create_lut_parallel sched parse proj vs =
    (case parse 1 of Inl e \<Rightarrow> Inl e | Inr c1 \<Rightarrow>
     (case parse 2 of Inl e \<Rightarrow> Inl e | Inr c2 \<Rightarrow>
      (case parse 3 of Inl e \<Rightarrow> Inl e | Inr c3 \<Rightarrow>
       (case parse 4 of Inl e \<Rightarrow> Inl e | Inr c4 \<Rightarrow>
          Inr [(1, map (proj c1) vs), (2, map (proj c2) vs), (3, map (proj c3) vs),
               (4, map (proj c4) vs)]))))"
  by (simp add: create_lut_sequential process_camera_def project_to_2d_def split: sum.splits)

lemma created_lut:
  assumes "configs_ok parse"
  shows "create_lut_parallel sched parse proj vs =
       Inr [(1, map (proj (projr (parse 1))) vs), (2, map (proj (projr (parse 2))) vs),
            (3, map (proj (projr (parse 3))) vs), (4, map (proj (projr (parse 4))) vs)]"
proof -
  have p: "parse 1 = Inr (projr (parse 1))" "parse 2 = Inr (projr (parse 2))"
    "parse 3 = Inr (projr (parse 3))" "parse 4 = Inr (projr (parse 4))"
    using assms by (simp_all add: configs_ok_def)
  show ?thesis using p by (auto simp add: create_lut_result split: sum.splits)
qed


lemma example_configs: "configs_ok parse_ok" "configs_ok parse_id"
  by (simp_all add: configs_ok_def parse_ok_def parse_id_def)

lemma example_created_lut:
  "create_lut_parallel [3, 1] parse_id proj_shift two_voxels =
     Inr [(1, [(33, - 16), (41, - 20)]), (2, [(34, - 16), (42, - 20)]),
          (3, [(35, - 16), (43, - 20)]), (4, [(36, - 16), (44, - 20)])]"
  by (simp add: create_lut_result parse_id_def proj_shift_def two_voxels_def)

text \<open>
  C6. The table returned by \<open>create_lut_parallel\<close> has the keys 1, 2, 3 and 4, and for
  each of them a sequence of the length of the voxel grid whose position \<open>i\<close> is the
  projection of voxel \<open>i\<close> by that camera.
\<close>

theorem lut_has_four_cameras_of_grid_length:
  assumes "create_lut_parallel sched parse proj vs = Inr lut"
  shows "map fst lut = [1, 2, 3, 4] \<and>
         (\<forall>entry \<in> set lut. length (snd entry) = length vs \<and>
            (\<exists>cam. parse (fst entry) = Inr cam \<and>
               (\<forall>i < length vs. snd entry ! i = proj cam (vs ! i))))"
  using assms by (auto simp add: create_lut_result split: sum.splits)

theorem lut_has_four_cameras_of_grid_length_witness:
  "create_lut_parallel [3, 1] parse_id proj_shift two_voxels =
     Inr [(1, [(33, - 16), (41, - 20)]), (2, [(34, - 16), (42, - 20)]),
          (3, [(35, - 16), (43, - 20)]), (4, [(36, - 16), (44, - 20)])]
   \<and> map fst [(1 :: int, [(33 :: real, - 16 :: real), (41, - 20)]), (2, [(34, - 16), (42, - 20)]),
               (3, [(35, - 16), (43, - 20)]), (4, [(36, - 16), (44, - 20)])] = [1, 2, 3, 4]
   \<and> length [(33 :: real, - 16 :: real), (41, - 20)] = length two_voxels"
proof -
  note t = lut_has_four_cameras_of_grid_length[OF example_created_lut]
  have a: "map fst [(1 :: int, [(33 :: real, - 16 :: real), (41, - 20)]),
                    (2, [(34, - 16), (42, - 20)]), (3, [(35, - 16), (43, - 20)]),
                    (4, [(36, - 16), (44, - 20)])] = [1, 2, 3, 4]"
    by (rule conjunct1[OF t])
  have b: "length [(33 :: real, - 16 :: real), (41, - 20)] = length two_voxels"
    using conjunct2[OF t] by simp
  show ?thesis using example_created_lut a b by (simp only: simp_thms)
qed

subsection \<open>Masks without foreground\<close>

lemma check_background:
  assumes ok: "list_all (\<lambda>entry. 1 \<le> fst entry \<and> fst entry \<le> int (length masks) \<and>
                             j < length (snd entry)) lut"
    and bg: "list_all all_background masks"
  shows "check_voxel_visibility j lut masks imgs = Inr None"
proof -
  have "\<not> cam_foreground masks j entry"
    if en: "entry \<in> set lut" and ins: "cam_inside masks j entry" for entry
  proof -
    have "nat (fst entry - 1) < length masks" using ok en by (auto simp add: list_all_iff)
    then have "all_background (cam_mask masks entry)"
      using bg by (simp add: cam_mask_def list_all_length)
    then show ?thesis using ins
      by (auto simp add: all_background_def cam_inside_def cam_foreground_def split: prod.splits)
  qed
  then have "\<forall>entry \<in> set lut. cam_inside masks j entry \<longrightarrow> \<not> cam_foreground masks j entry"
    by blast
  then show ?thesis
    by (simp add: check_voxel_visibility_def visit_background[OF ok])
qed

lemma reconstruct_none:
  assumes "\<forall>j < length vs. check_voxel_visibility j lut masks imgs = Inr None"
  shows "reconstruct vs lut masks imgs = Inr []"
proof -
  have f: "find (\<lambda>j. isl (check_voxel_visibility j lut masks imgs)) [0..<length vs] = None"
    using assms by (simp add: find_None_iff)
  have r: "\<forall>j \<in> set [0..<length vs]. voxel_rows vs lut masks imgs j = []"
    using assms by (simp add: voxel_rows_def)
  show ?thesis using r by (simp add: reconstruct_full f)
qed

lemma example_background: "list_all all_background background_masks"
  by (simp add: background_masks_def all_background_def flat_mask_def)

text \<open>
  C8. When the configurations of the four cameras can be read and each of the four
  masks is background everywhere, the reconstruction ends without an exception and its
  list of visible voxels is empty, whatever the images are.
\<close>

theorem all_background_gives_empty_output:
  assumes "configs_ok parse" "4 \<le> length masks" "list_all all_background masks"
  shows "check_visibility_and_reconstruct sched parse proj masks imgs = Inr []"
proof -
  let ?lut = "[(1, map (proj (projr (parse 1))) voxels), (2, map (proj (projr (parse 2))) voxels),
               (3, map (proj (projr (parse 3))) voxels), (4, map (proj (projr (parse 4))) voxels)]"
  have "check_voxel_visibility j ?lut masks imgs = Inr None" if "j < length voxels" for j
    using that assms(2) by (intro check_background[OF _ assms(3)]) simp
  then have "reconstruct voxels ?lut masks imgs = Inr []"
    by (intro reconstruct_none) blast
  then show ?thesis
    by (simp add: check_visibility_and_reconstruct_def created_lut[OF assms(1)])
qed

theorem all_background_gives_empty_output_witness:
  "configs_ok parse_ok \<and> 4 \<le> length background_masks \<and>
   list_all all_background background_masks \<and>
   check_visibility_and_reconstruct [2, 1] parse_ok proj_corner background_masks four_images
     = Inr []"
proof -
  have l: "4 \<le> length background_masks" by (simp add: background_masks_def)
  show ?thesis
    using all_background_gives_empty_output[OF example_configs(1) l example_background,
        of "[2, 1]" proj_corner four_images]
      example_configs(1) l example_background
    by simp
qed

subsection \<open>The voxel grid\<close>

lemma length_linspace: "length (linspace a b n) = n"
  by (simp add: linspace_def)

lemma nth_linspace: "i < n \<Longrightarrow> linspace a b n ! i = a + real i * ((b - a) / real (n - 1))"
  by (simp add: linspace_def)

lemma distinct_linspace: "a \<noteq> b \<Longrightarrow> 1 < n \<Longrightarrow> distinct (linspace a b n)"
  by (auto simp add: linspace_def distinct_map inj_on_def)

lemma length_make_voxels: "length (make_voxels xs ys zs) = length zs * length xs * length ys"
  by (simp add: make_voxels_def)

lemma length_voxels: "length voxels = 8000000"
  by (simp add: voxels_def length_make_voxels x_range_def y_range_def z_range_def
        length_linspace)

text \<open>The row number \<open>(k * a + j) * b + i\<close> and its three digits.\<close>

lemma row_index:
  assumes "i < b" "j < a"
  shows "((k * a + j) * b + i) mod b = i" "(((k * a + j) * b + i) div b) mod a = j"
    "((k * a + j) * b + i) div (b * a) = (k::nat)"
proof -
  show "((k * a + j) * b + i) mod b = i" using assms by simp
  have d: "((k * a + j) * b + i) div b = k * a + j" using assms by simp
  show "(((k * a + j) * b + i) div b) mod a = j" using assms by (simp add: d)
  show "((k * a + j) * b + i) div (b * a) = k" using assms by (simp add: div_mult2_eq d)
qed

lemma index_bound:
  assumes "i < b" "j < a" "k < (c::nat)"
  shows "(k * a + j) * b + i < c * a * b"
proof -
  have "k * a + j < k * a + a" using assms by simp
  also have "\<dots> = (k + 1) * a" by simp
  also have "\<dots> \<le> c * a" using assms by (intro mult_le_mono1) simp
  finally have inner: "k * a + j < c * a" .
  have "(k * a + j) * b + i < (k * a + j) * b + b" using assms by simp
  also have "\<dots> = (k * a + j + 1) * b" by simp
  also have "\<dots> \<le> (c * a) * b" using inner by (intro mult_le_mono1) simp
  finally show ?thesis .
qed

lemma index_split:
  assumes "n < c * a * (b::nat)"
  obtains i j k where "i < b" "j < a" "k < c" "n = (k * a + j) * b + i"
proof -
  have b: "0 < b" and a: "0 < a" using assms by (auto intro: gr0I)
  let ?i = "n mod b" and ?j = "(n div b) mod a" and ?k = "n div b div a"
  have "n div b < c * a" using assms b by (simp add: less_mult_imp_div_less)
  then have k: "?k < c" using a by (simp add: less_mult_imp_div_less)
  have "n = (?k * a + ?j) * b + ?i" by simp
  then show ?thesis using that[of ?i ?j ?k] a b k by simp
qed

lemma nth_make_voxels:
  assumes "i < length ys" "j < length xs" "k < length zs"
  shows "make_voxels xs ys zs ! ((k * length xs + j) * length ys + i) = (xs ! j, ys ! i, zs ! k)"
proof -
  have "(k * length xs + j) * length ys + i < length zs * length xs * length ys"
    using assms by (rule index_bound)
  then show ?thesis using assms
    by (simp add: make_voxels_def voxel_row_def meshgrid_def row_index Let_def)
qed

lemma set_make_voxels: "set (make_voxels xs ys zs) = set xs \<times> set ys \<times> set zs"
proof (intro set_eqI iffI)
  fix v assume "v \<in> set (make_voxels xs ys zs)"
  then obtain n where n: "n < length zs * length xs * length ys"
    and v: "v = make_voxels xs ys zs ! n"
    by (auto simp add: in_set_conv_nth length_make_voxels)
  obtain i j k where ijk: "i < length ys" "j < length xs" "k < length zs"
    "n = (k * length xs + j) * length ys + i"
    using n by (rule index_split)
  show "v \<in> set xs \<times> set ys \<times> set zs"
    using ijk by (simp add: v nth_make_voxels)
next
  fix v assume "v \<in> set xs \<times> set ys \<times> set zs"
  then obtain j i k where ijk: "j < length xs" "i < length ys" "k < length zs"
    and v: "v = (xs ! j, ys ! i, zs ! k)"
    by (auto simp add: in_set_conv_nth)
  have "(k * length xs + j) * length ys + i < length (make_voxels xs ys zs)"
    using ijk by (simp add: length_make_voxels index_bound)
  then have "make_voxels xs ys zs ! ((k * length xs + j) * length ys + i)
               \<in> set (make_voxels xs ys zs)"
    by (rule nth_mem)
  then show "v \<in> set (make_voxels xs ys zs)" using ijk by (simp add: v nth_make_voxels)
qed

lemma distinct_make_voxels:
  assumes "distinct xs" "distinct ys" "distinct zs"
  shows "distinct (make_voxels xs ys zs)"
proof (subst distinct_conv_nth, intro allI impI)
  fix n m
  assume n: "n < length (make_voxels xs ys zs)" and m: "m < length (make_voxels xs ys zs)"
    and ne: "n \<noteq> m"
  obtain i j k where ijk: "i < length ys" "j < length xs" "k < length zs"
    "n = (k * length xs + j) * length ys + i"
    using n unfolding length_make_voxels by (rule index_split)
  obtain i' j' k' where ijk': "i' < length ys" "j' < length xs" "k' < length zs"
    "m = (k' * length xs + j') * length ys + i'"
    using m unfolding length_make_voxels by (rule index_split)
  have "(i, j, k) \<noteq> (i', j', k')" using ne ijk(4) ijk'(4) by auto
  then have "(xs ! j, ys ! i, zs ! k) \<noteq> (xs ! j', ys ! i', zs ! k')"
    using assms ijk ijk' by (auto simp add: nth_eq_iff_index_eq)
  then show "make_voxels xs ys zs ! n \<noteq> make_voxels xs ys zs ! m"
    using ijk ijk' by (simp add: nth_make_voxels)
qed

lemma ranges_length: "length x_range = 200" "length y_range = 200" "length z_range = 200"
  by (simp_all add: x_range_def y_range_def z_range_def length_linspace)

lemma ranges_nth:
  assumes "i < 200"
  shows "x_range ! i = - 1024 + real i * (2048 / 199)"
    "y_range ! i = - 1024 + real i * (2048 / 199)"
    "z_range ! i = real i * (2048 / 199)"
  using assms by (simp_all add: x_range_def y_range_def z_range_def nth_linspace)

lemma ranges_distinct: "distinct x_range" "distinct y_range" "distinct z_range"
  by (simp_all add: x_range_def y_range_def z_range_def distinct_linspace)

text \<open>
  C5. The voxel grid is a constant: 8,000,000 points, the Cartesian product of 200
  evenly spaced samples per axis, from \<open>-1024\<close> to \<open>1024\<close> for \<open>x\<close> and \<open>y\<close> and from \<open>0\<close>
  to \<open>2048\<close> for \<open>z\<close>, each point once, in the fixed order in which the voxel with
  sample numbers \<open>j\<close>, \<open>i\<close> and \<open>k\<close> for \<open>x\<close>, \<open>y\<close> and \<open>z\<close> has the index
  \<open>(k * 200 + j) * 200 + i\<close>.
\<close>

theorem voxel_grid_is_the_lattice:
  "length voxels = 8000000
   \<and> length x_range = 200 \<and> length y_range = 200 \<and> length z_range = 200
   \<and> (\<forall>i < 200. x_range ! i = - 1024 + real i * (2048 / 199)
               \<and> y_range ! i = - 1024 + real i * (2048 / 199)
               \<and> z_range ! i = real i * (2048 / 199))
   \<and> x_range ! 0 = - 1024 \<and> x_range ! 199 = 1024
   \<and> y_range ! 0 = - 1024 \<and> y_range ! 199 = 1024
   \<and> z_range ! 0 = 0 \<and> z_range ! 199 = 2048
   \<and> set voxels = set x_range \<times> set y_range \<times> set z_range
   \<and> distinct voxels
   \<and> (\<forall>i < 200. \<forall>j < 200. \<forall>k < 200.
         voxels ! ((k * 200 + j) * 200 + i) = (x_range ! j, y_range ! i, z_range ! k))"
proof -
  have ends: "x_range ! 0 = - 1024" "x_range ! 199 = 1024" "y_range ! 0 = - 1024"
    "y_range ! 199 = 1024" "z_range ! 0 = 0" "z_range ! 199 = 2048"
    by (simp_all add: ranges_nth)
  have s: "set voxels = set x_range \<times> set y_range \<times> set z_range"
    by (simp add: voxels_def set_make_voxels)
  have d: "distinct voxels"
    unfolding voxels_def by (intro distinct_make_voxels ranges_distinct)
  have n: "voxels ! ((k * 200 + j) * 200 + i) = (x_range ! j, y_range ! i, z_range ! k)"
    if "i < 200" "j < 200" "k < 200" for i j k
    using nth_make_voxels[of i y_range j x_range k z_range] that
    by (simp add: voxels_def ranges_length)
  show ?thesis
    using length_voxels ranges_length ranges_nth ends s d n by blast
qed

theorem voxel_grid_is_the_lattice_witness:
  "voxels ! 120401 = (x_range ! 2, y_range ! 1, z_range ! 3)
   \<and> x_range ! 2 = - 1024 + 2 * (2048 / 199)
   \<and> y_range ! 1 = - 1024 + 2048 / 199
   \<and> z_range ! 3 = 3 * (2048 / 199)"
proof -
  note t = voxel_grid_is_the_lattice
  have idx: "\<forall>i < 200. \<forall>j < 200. \<forall>k < 200.
         voxels ! ((k * 200 + j) * 200 + i) = (x_range ! j, y_range ! i, z_range ! k)"
    using t by blast
  have smp: "\<forall>i < 200. x_range ! i = - 1024 + real i * (2048 / 199)
               \<and> y_range ! i = - 1024 + real i * (2048 / 199)
               \<and> z_range ! i = real i * (2048 / 199)"
    using t by blast
  have a: "voxels ! 120401 = (x_range ! 2, y_range ! 1, z_range ! 3)"
    using idx[rule_format, of 1 2 3] by simp
  have b: "x_range ! 2 = - 1024 + 2 * (2048 / 199)"
    using smp[rule_format, of 2] by simp
  have c: "y_range ! 1 = - 1024 + 2048 / 199"
    using smp[rule_format, of 1] by simp
  have d: "z_range ! 3 = 3 * (2048 / 199)"
    using smp[rule_format, of 3] by simp
  show ?thesis using a b c d by (simp only: simp_thms)
qed

subsection \<open>Images whose dimensions differ from their masks'\<close>







end
